theory Spec2Isabelle
  imports Complex_Main "HOL-Library.Sublist" "HOL-Library.Log_Nat"
begin

section \<open>JavaScript values\<close>

text \<open>
  The classifier takes \<open>error: any\<close>. The values it can tell apart are modelled by
  \<open>jsval\<close>: the two nullish values, the primitives, and objects as lists of properties
  (the first binding of a key is the one a property read sees). A number held in an
  error value or in a configuration is the real it denotes; \<open>NaN\<close> and the infinities
  do not occur there. The arithmetic of \<open>calculateDelay\<close> is the arithmetic of doubles,
  modelled in the section on numbers below. Strings are
  lists of 8-bit characters. Objects carry data properties only: no property is a
  function, so an object never answers \<open>toLowerCase()\<close>.
\<close>

datatype jsval =
    JUndefined
  | JNull
  | JBool bool
  | JNum real
  | JStr string
  | JObj "(string \<times> jsval) list"

text \<open>What evaluating an expression of \<open>retry.ts\<close> can raise by itself.\<close>

datatype js_error = TypeError

text \<open>
  \<open>v?.k\<close>: \<open>undefined\<close> on a nullish \<open>v\<close>; the property of an object, \<open>undefined\<close>
  when it has none under that name; \<open>undefined\<close> on a boolean, a number or a string
  (none of the names read in \<open>retry.ts\<close> is a property of a primitive's prototype).
\<close>

fun opt_get :: "jsval \<Rightarrow> string \<Rightarrow> jsval" where
  "opt_get (JObj fs) k = (case map_of fs k of None \<Rightarrow> JUndefined | Some v \<Rightarrow> v)"
| "opt_get v k = JUndefined"

text \<open>\<open>String.prototype.toLowerCase\<close>, on the letters \<open>A\<close> to \<open>Z\<close>.\<close>

definition toLowerCase_char :: "char \<Rightarrow> char" where
  "toLowerCase_char c =
     (if (65::nat) \<le> of_char c \<and> of_char c \<le> (90::nat)
      then char_of (of_char c + (32::nat)) else c)"

definition toLowerCase :: "string \<Rightarrow> string" where
  "toLowerCase s = map toLowerCase_char s"

text \<open>
  \<open>v?.toLowerCase()\<close>: \<open>undefined\<close> (here \<open>None\<close>) on a nullish \<open>v\<close>, the lowered
  string on a string, and a \<open>TypeError\<close> on every other value, whose \<open>toLowerCase\<close>
  property is \<open>undefined\<close> and is called all the same.
\<close>

fun opt_toLowerCase :: "jsval \<Rightarrow> js_error + string option" where
  "opt_toLowerCase JUndefined = Inr None"
| "opt_toLowerCase JNull = Inr None"
| "opt_toLowerCase (JStr s) = Inr (Some (toLowerCase s))"
| "opt_toLowerCase v = Inl TypeError"

text \<open>\<open>s.includes(pat)\<close>: \<open>pat\<close> occurs in \<open>s\<close> as a run of consecutive characters.\<close>

fun includes_str :: "string \<Rightarrow> string \<Rightarrow> bool" where
  "includes_str [] pat = (pat = [])"
| "includes_str (c # s) pat = (prefix pat (c # s) \<or> includes_str s pat)"

section \<open>The error classifier\<close>

text \<open>
  The initialiser of \<open>errorMessage\<close>:
  \<open>error?.message?.toLowerCase() || error?.details?.toLowerCase() ||
    error?.msg?.toLowerCase() || ''\<close>.
  \<open>||\<close> evaluates its right operand only when the left one is falsy, which for the
  results of \<open>opt_toLowerCase\<close> means \<open>undefined\<close> or the empty string.
\<close>

fun or_chain :: "jsval list \<Rightarrow> js_error + string" where
  "or_chain [] = Inr []"
| "or_chain (v # vs) =
     (case opt_toLowerCase v of
        Inl t \<Rightarrow> Inl t
      | Inr None \<Rightarrow> or_chain vs
      | Inr (Some s) \<Rightarrow> if s \<noteq> [] then Inr s else or_chain vs)"

definition errorMessage_of :: "jsval \<Rightarrow> js_error + string" where
  "errorMessage_of error =
     or_chain [opt_get error ''message'', opt_get error ''details'', opt_get error ''msg'']"

definition isRetryableFirestoreError :: "jsval \<Rightarrow> js_error + bool" where
  "isRetryableFirestoreError error =
     (case errorMessage_of error of
        Inl t \<Rightarrow> Inl t
      | Inr errorMessage \<Rightarrow>
          (let errorCode = opt_get error ''code'' in
           Inr (if errorCode = JNum 13 \<and> includes_str errorMessage ''rst_stream'' then True
                else if includes_str errorMessage ''quota exceeded'' \<or>
                        includes_str errorMessage ''write limit'' then True
                else if errorCode = JNum 14 \<or> includes_str errorMessage ''unavailable'' then True
                else if includes_str errorMessage ''timeout'' \<or>
                        includes_str errorMessage ''deadline exceeded'' then True
                else if errorCode = JNum 13 \<or>
                        includes_str errorMessage ''internal server error'' then True
                else if errorCode = JNum 8 \<or>
                        includes_str errorMessage ''resource exhausted'' then True
                else False)))"

text \<open>The classifier as it would read with its first rule (the RST\_STREAM test) deleted.\<close>

definition isRetryableFirestoreError_without_rule1 :: "jsval \<Rightarrow> js_error + bool" where
  "isRetryableFirestoreError_without_rule1 error =
     (case errorMessage_of error of
        Inl t \<Rightarrow> Inl t
      | Inr errorMessage \<Rightarrow>
          (let errorCode = opt_get error ''code'' in
           Inr (if includes_str errorMessage ''quota exceeded'' \<or>
                   includes_str errorMessage ''write limit'' then True
                else if errorCode = JNum 14 \<or> includes_str errorMessage ''unavailable'' then True
                else if includes_str errorMessage ''timeout'' \<or>
                        includes_str errorMessage ''deadline exceeded'' then True
                else if errorCode = JNum 13 \<or>
                        includes_str errorMessage ''internal server error'' then True
                else if errorCode = JNum 8 \<or>
                        includes_str errorMessage ''resource exhausted'' then True
                else False)))"

subsection \<open>The classifier as the specification words it\<close>

text \<open>
  The specification's extraction: the text of a field is its string when the field holds
  a string, and nothing otherwise; the message is the first non-empty text among
  \<open>message\<close>, \<open>details\<close>, \<open>msg\<close>, lowered, and the empty string when there is none;
  the status code is the \<open>code\<close> field when it holds an integer.
\<close>

fun text_of :: "jsval \<Rightarrow> string" where
  "text_of (JStr s) = s"
| "text_of v = []"

definition field_text :: "jsval \<Rightarrow> string \<Rightarrow> string" where
  "field_text error k = text_of (opt_get error k)"

definition spec_message :: "jsval \<Rightarrow> string" where
  "spec_message error =
     toLowerCase
       (case filter (\<lambda>s. s \<noteq> []) (map (field_text error) [''message'', ''details'', ''msg'']) of
          [] \<Rightarrow> []
        | s # _ \<Rightarrow> s)"

definition spec_code :: "jsval \<Rightarrow> int option" where
  "spec_code error =
     (case opt_get error ''code'' of
        JNum r \<Rightarrow> if of_int \<lfloor>r\<rfloor> = r then Some \<lfloor>r\<rfloor> else None
      | _ \<Rightarrow> None)"

text \<open>The seven rules of the specification, in its order; the first that matches decides.\<close>

definition spec_rules :: "string \<Rightarrow> int option \<Rightarrow> bool" where
  "spec_rules message code =
     (if code = Some 13 \<and> includes_str message ''rst_stream'' then True
      else if includes_str message ''quota exceeded'' \<or> includes_str message ''write limit'' then True
      else if code = Some 14 \<or> includes_str message ''unavailable'' then True
      else if includes_str message ''timeout'' \<or> includes_str message ''deadline exceeded'' then True
      else if code = Some 13 \<or> includes_str message ''internal server error'' then True
      else if code = Some 8 \<or> includes_str message ''resource exhausted'' then True
      else False)"

definition spec_isRetryable :: "jsval \<Rightarrow> bool" where
  "spec_isRetryable error = spec_rules (spec_message error) (spec_code error)"

text \<open>
  The fields the extraction reads are those up to the first one holding a non-empty
  string. \<open>reads_strings vs\<close> holds when each of them is \<open>undefined\<close>, \<open>null\<close> or a
  string.
\<close>

fun reads_strings :: "jsval list \<Rightarrow> bool" where
  "reads_strings [] = True"
| "reads_strings (JUndefined # vs) = reads_strings vs"
| "reads_strings (JNull # vs) = reads_strings vs"
| "reads_strings (JStr s # vs) = (s \<noteq> [] \<or> reads_strings vs)"
| "reads_strings (v # vs) = False"

text \<open>A field that is absent (\<open>undefined\<close>), \<open>null\<close> or a string.\<close>

fun string_or_nullish :: "jsval \<Rightarrow> bool" where
  "string_or_nullish JUndefined = True"
| "string_or_nullish JNull = True"
| "string_or_nullish (JStr s) = True"
| "string_or_nullish v = False"

definition message_fields :: "jsval \<Rightarrow> jsval list" where
  "message_fields error =
     [opt_get error ''message'', opt_get error ''details'', opt_get error ''msg'']"

section \<open>Configuration\<close>

text \<open>
  \<open>RetryConfig\<close> has four optional numbers; \<open>Required<RetryConfig>\<close> has all four.
  The fields of the partial record carry the suffix \<open>_opt\<close>; \<open>None\<close> is a field the
  object literal does not mention.
\<close>

record RetryConfig =
  maxRetries_opt :: "real option"
  baseDelay_opt :: "real option"
  maxDelay_opt :: "real option"
  jitterFactor_opt :: "real option"

record RequiredRetryConfig =
  maxRetries :: real
  baseDelay :: real
  maxDelay :: real
  jitterFactor :: real

definition DEFAULT_RETRY_CONFIG :: RequiredRetryConfig where
  "DEFAULT_RETRY_CONFIG =
     \<lparr>maxRetries = 5, baseDelay = 1000, maxDelay = 30000, jitterFactor = 1 / 10\<rparr>"

text \<open>The default argument \<open>config = {}\<close>.\<close>

definition empty_config :: RetryConfig where
  "empty_config =
     \<lparr>maxRetries_opt = None, baseDelay_opt = None, maxDelay_opt = None, jitterFactor_opt = None\<rparr>"

text \<open>\<open>{ ...defaults, ...config }\<close>: a field of \<open>config\<close> replaces the default's.\<close>

definition spread_config :: "RequiredRetryConfig \<Rightarrow> RetryConfig \<Rightarrow> RequiredRetryConfig" where
  "spread_config defaults config =
     \<lparr>maxRetries = (case maxRetries_opt config of None \<Rightarrow> maxRetries defaults | Some v \<Rightarrow> v),
      baseDelay = (case baseDelay_opt config of None \<Rightarrow> baseDelay defaults | Some v \<Rightarrow> v),
      maxDelay = (case maxDelay_opt config of None \<Rightarrow> maxDelay defaults | Some v \<Rightarrow> v),
      jitterFactor =
        (case jitterFactor_opt config of None \<Rightarrow> jitterFactor defaults | Some v \<Rightarrow> v)\<rparr>"

text \<open>A resolved configuration passed where a \<open>RetryConfig\<close> is expected.\<close>

definition as_RetryConfig :: "RequiredRetryConfig \<Rightarrow> RetryConfig" where
  "as_RetryConfig c =
     \<lparr>maxRetries_opt = Some (maxRetries c), baseDelay_opt = Some (baseDelay c),
      maxDelay_opt = Some (maxDelay c), jitterFactor_opt = Some (jitterFactor c)\<rparr>"

subsection \<open>The presets \<open>RetryConfigs\<close>\<close>

definition FAST :: RetryConfig where
  "FAST = \<lparr>maxRetries_opt = Some 3, baseDelay_opt = Some 500, maxDelay_opt = Some 5000,
            jitterFactor_opt = None\<rparr>"

definition STANDARD :: RetryConfig where
  "STANDARD = \<lparr>maxRetries_opt = Some 5, baseDelay_opt = Some 1000, maxDelay_opt = Some 30000,
                jitterFactor_opt = None\<rparr>"

definition AGGRESSIVE :: RetryConfig where
  "AGGRESSIVE = \<lparr>maxRetries_opt = Some 10, baseDelay_opt = Some 1000, maxDelay_opt = Some 60000,
                  jitterFactor_opt = None\<rparr>"

definition PATIENT :: RetryConfig where
  "PATIENT = \<lparr>maxRetries_opt = Some 7, baseDelay_opt = Some 2000, maxDelay_opt = Some 120000,
               jitterFactor_opt = None\<rparr>"

definition RetryConfigs :: "RetryConfig list" where
  "RetryConfigs = [FAST, STANDARD, AGGRESSIVE, PATIENT]"

text \<open>A \<open>RetryConfig\<close> that mentions all four fields.\<close>

definition specifies_all_fields :: "RetryConfig \<Rightarrow> bool" where
  "specifies_all_fields c =
     (maxRetries_opt c \<noteq> None \<and> baseDelay_opt c \<noteq> None \<and> maxDelay_opt c \<noteq> None \<and>
      jitterFactor_opt c \<noteq> None)"

section \<open>Numbers\<close>

text \<open>
  The values of JavaScript arithmetic are the doubles of IEEE 754: the finite ones, here
  the reals they denote, the two infinities and \<open>NaN\<close>. The two zeros are one value:
  nothing in \<open>retry.ts\<close> divides or otherwise tells them apart.
\<close>

datatype number = Finite real | PosInfinity | NegInfinity | NaN

text \<open>
  \<open>binade x\<close> is the exponent \<open>e\<close> with \<open>2^e \<le> |x| < 2^(e+1)\<close>, for \<open>x\<close> other than
  0, read off the bit length of the integer part of \<open>|x|\<close> or of \<open>1 / |x|\<close>.
\<close>

definition binade :: "real \<Rightarrow> int" where
  "binade x =
     (if 1 \<le> \<bar>x\<bar> then bitlen \<lfloor>\<bar>x\<bar>\<rfloor> - 1
      else (let k = bitlen \<lfloor>1 / \<bar>x\<bar>\<rfloor> - 1
            in if \<bar>x\<bar> = 2 powi (- k) then - k else - k - 1))"

text \<open>The nearest integer, the even one of two that are equally near.\<close>

definition round_half_even :: "real \<Rightarrow> int" where
  "round_half_even y =
     (let f = \<lfloor>y\<rfloor>; d = y - of_int f
      in if d < 1 / 2 then f else if 1 / 2 < d then f + 1 else if even f then f else f + 1)"

text \<open>
  The distance between neighbouring doubles around \<open>x\<close>: 52 binary places below the
  leading bit, and \<open>2^-1074\<close> throughout the subnormal range.
\<close>

definition quantum :: "real \<Rightarrow> real" where
  "quantum x = 2 powi (max (binade x) (- 1022) - 52)"

definition nearest :: "real \<Rightarrow> real" where
  "nearest x = (if x = 0 then 0 else of_int (round_half_even (x / quantum x)) * quantum x)"

text \<open>
  The Number value for a real: the nearest double, ties to even, and an infinity once
  that is \<open>2^1024\<close> in magnitude. It is what a numeric literal evaluates to and what
  every arithmetic operation returns for its exact result.
\<close>

definition Number_value :: "real \<Rightarrow> number" where
  "Number_value x =
     (let y = nearest x
      in if 2 ^ 1024 \<le> y then PosInfinity
         else if y \<le> - (2 ^ 1024) then NegInfinity
         else Finite y)"

text \<open>\<open>a * b\<close>.\<close>

fun times_number :: "number \<Rightarrow> number \<Rightarrow> number" where
  "times_number (Finite x) (Finite y) = Number_value (x * y)"
| "times_number NaN b = NaN"
| "times_number a NaN = NaN"
| "times_number (Finite x) PosInfinity =
     (if x = 0 then NaN else if 0 < x then PosInfinity else NegInfinity)"
| "times_number (Finite x) NegInfinity =
     (if x = 0 then NaN else if 0 < x then NegInfinity else PosInfinity)"
| "times_number PosInfinity (Finite y) =
     (if y = 0 then NaN else if 0 < y then PosInfinity else NegInfinity)"
| "times_number NegInfinity (Finite y) =
     (if y = 0 then NaN else if 0 < y then NegInfinity else PosInfinity)"
| "times_number PosInfinity PosInfinity = PosInfinity"
| "times_number PosInfinity NegInfinity = NegInfinity"
| "times_number NegInfinity PosInfinity = NegInfinity"
| "times_number NegInfinity NegInfinity = PosInfinity"

text \<open>\<open>a + b\<close>.\<close>

fun plus_number :: "number \<Rightarrow> number \<Rightarrow> number" where
  "plus_number (Finite x) (Finite y) = Number_value (x + y)"
| "plus_number NaN b = NaN"
| "plus_number a NaN = NaN"
| "plus_number PosInfinity NegInfinity = NaN"
| "plus_number NegInfinity PosInfinity = NaN"
| "plus_number PosInfinity b = PosInfinity"
| "plus_number NegInfinity b = NegInfinity"
| "plus_number a PosInfinity = PosInfinity"
| "plus_number a NegInfinity = NegInfinity"

text \<open>\<open>a <= b\<close>: false as soon as one side is \<open>NaN\<close>.\<close>

fun number_le :: "number \<Rightarrow> number \<Rightarrow> bool" where
  "number_le NaN b = False"
| "number_le a NaN = False"
| "number_le NegInfinity b = True"
| "number_le a PosInfinity = True"
| "number_le (Finite x) (Finite y) = (x \<le> y)"
| "number_le a b = False"

text \<open>\<open>Math.min(a, b)\<close>: \<open>NaN\<close> as soon as one argument is.\<close>

definition Math_min :: "number \<Rightarrow> number \<Rightarrow> number" where
  "Math_min a b = (if a = NaN \<or> b = NaN then NaN else if number_le a b then a else b)"

text \<open>\<open>Math.pow(2, k)\<close> for an integer \<open>k\<close>.\<close>

definition Math_pow2 :: "int \<Rightarrow> number" where
  "Math_pow2 k = Number_value (2 powi k)"

text \<open>\<open>Math.round(a)\<close>: the nearest integer, the greater one of two equally near.\<close>

fun Math_round :: "number \<Rightarrow> number" where
  "Math_round (Finite x) = Finite (of_int \<lfloor>x + 1 / 2\<rfloor>)"
| "Math_round a = a"

text \<open>
  The finite doubles: an integer below \<open>2^53\<close> in magnitude times a power of two not
  below \<open>2^-1074\<close>, the product below \<open>2^1024\<close> in magnitude.
\<close>

definition is_double :: "real \<Rightarrow> bool" where
  "is_double d \<longleftrightarrow>
     (\<exists>m e. d = of_int m * 2 powi e \<and> \<bar>m\<bar> < 2 ^ 53 \<and> - 1074 \<le> e) \<and> \<bar>d\<bar> < 2 ^ 1024"

section \<open>The delay\<close>

text \<open>
  \<open>calculateDelay\<close>, with the value of \<open>Math.random()\<close> as its third argument. The
  fields of the configuration and the draw enter the arithmetic as the doubles they
  denote, and each product and the sum is rounded to a double in the order the source
  evaluates them. The attempt number is an integer. The three local constants are
  functions of their own.
\<close>

definition exponentialDelay :: "int \<Rightarrow> RequiredRetryConfig \<Rightarrow> number" where
  "exponentialDelay attempt config =
     times_number (Number_value (baseDelay config)) (Math_pow2 (attempt - 1))"

definition jitter :: "int \<Rightarrow> RequiredRetryConfig \<Rightarrow> real \<Rightarrow> number" where
  "jitter attempt config random =
     times_number
       (times_number (exponentialDelay attempt config) (Number_value (jitterFactor config)))
       (Number_value random)"

definition totalDelay :: "int \<Rightarrow> RequiredRetryConfig \<Rightarrow> real \<Rightarrow> number" where
  "totalDelay attempt config random =
     plus_number (exponentialDelay attempt config) (jitter attempt config random)"

definition calculateDelay :: "int \<Rightarrow> RequiredRetryConfig \<Rightarrow> real \<Rightarrow> number" where
  "calculateDelay attempt config random =
     Math_min (totalDelay attempt config random) (Number_value (maxDelay config))"

section \<open>The attempt loop\<close>

text \<open>
  What a call leaves behind is a trace of events, in the order they happen: an
  invocation of the operation, a \<open>console.warn\<close>, a \<open>sleep\<close>. The warning before a
  retry is kept by its parts: the operation's name, \<open>Math.round(delay)\<close>, the attempt,
  \<open>maxRetries\<close> and \<open>error.message\<close>.
\<close>

datatype diagnostic =
    RetryWarning string number int real jsval
  | EmptyBatchWarning

datatype event = Invoke | Warn diagnostic | Sleep number

text \<open>
  What a promise rejects with: the very value the operation threw, an error the
  classifier raised while it was consulted, or \<open>new Error(message)\<close>.
\<close>

datatype thrown = OperationError jsval | ClassifierError js_error | NewError string

datatype 'a settled = Resolved 'a | Rejected thrown

text \<open>
  The operation is a black box with a state of its own: \<open>operation i\<close> is how its
  invocation number \<open>i\<close> (from 0) settles, \<open>Inl\<close> with the value thrown or \<open>Inr\<close> with
  the result. An operation that never settles is outside the model. \<open>random i\<close> is what
  call number \<open>i\<close> of \<open>Math.random()\<close> returns. The loop hands both on to the next
  iteration shifted by the one call it made.
\<close>

type_synonym 'a operation = "nat \<Rightarrow> jsval + 'a"

function retry_loop ::
  "RequiredRetryConfig \<Rightarrow> string \<Rightarrow> 'a operation \<Rightarrow> (nat \<Rightarrow> real) \<Rightarrow> int \<Rightarrow> 'a settled \<times> event list"
where
  "retry_loop finalConfig operationName operation random attempt =
     (if of_int attempt \<le> maxRetries finalConfig then
        (case operation 0 of
           Inr result \<Rightarrow> (Resolved result, [Invoke])
         | Inl error \<Rightarrow>
             if of_int attempt = maxRetries finalConfig
             then (Rejected (OperationError error), [Invoke])
             else
               (case isRetryableFirestoreError error of
                  Inl t \<Rightarrow> (Rejected (ClassifierError t), [Invoke])
                | Inr retryable \<Rightarrow>
                    if \<not> retryable then (Rejected (OperationError error), [Invoke])
                    else
                      (let delay = calculateDelay attempt finalConfig (random 0) in
                       case retry_loop finalConfig operationName (\<lambda>i. operation (Suc i))
                              (\<lambda>i. random (Suc i)) (attempt + 1) of
                         (outcome, later) \<Rightarrow>
                           (outcome,
                            Invoke #
                            Warn (RetryWarning operationName (Math_round delay) attempt
                                    (maxRetries finalConfig) (opt_get error ''message'')) #
                            Sleep delay # later))))
      else (Rejected (NewError (''Max retries exceeded for '' @ operationName)), []))"
  by pat_completeness auto
termination
proof (relation "measure (\<lambda>(finalConfig, operationName, operation, random, attempt).
                   nat (\<lfloor>maxRetries finalConfig\<rfloor> + 1 - attempt))")
  show "wf (measure (\<lambda>(finalConfig :: RequiredRetryConfig, operationName :: string,
                       operation :: 'a operation, random :: nat \<Rightarrow> real, attempt).
                   nat (\<lfloor>maxRetries finalConfig\<rfloor> + 1 - attempt)))"
    by simp
next
  fix finalConfig :: RequiredRetryConfig and attempt :: int
  assume "of_int attempt \<le> maxRetries finalConfig"
  then have "attempt \<le> \<lfloor>maxRetries finalConfig\<rfloor>"
    by (simp add: le_floor_iff)
  then show "\<And>operationName (operation :: 'a operation) (random :: nat \<Rightarrow> real).
      ((finalConfig, operationName, \<lambda>i. operation (Suc i), \<lambda>i. random (Suc i), attempt + 1),
       (finalConfig, operationName, operation, random, attempt))
      \<in> measure (\<lambda>(finalConfig, operationName, operation, random, attempt).
                   nat (\<lfloor>maxRetries finalConfig\<rfloor> + 1 - attempt))"
    by simp
qed

declare retry_loop.simps [simp del]

text \<open>
  \<open>retryOperation\<close>. Its default arguments are \<open>'operation'\<close> for the name and
  \<open>empty_config\<close> for the configuration.
\<close>

definition retryOperation ::
  "'a operation \<Rightarrow> string \<Rightarrow> RetryConfig \<Rightarrow> (nat \<Rightarrow> real) \<Rightarrow> 'a settled \<times> event list"
where
  "retryOperation operation operationName config random =
     (let finalConfig = spread_config DEFAULT_RETRY_CONFIG config
      in retry_loop finalConfig operationName operation random 1)"

definition retryFirestoreOperation ::
  "'a operation \<Rightarrow> string \<Rightarrow> RetryConfig \<Rightarrow> (nat \<Rightarrow> real) \<Rightarrow> 'a settled \<times> event list"
where
  "retryFirestoreOperation operation operationName config random =
     retryOperation operation operationName config random"

text \<open>What a trace says about a call.\<close>

definition invocations :: "event list \<Rightarrow> nat" where
  "invocations tr = length (filter (\<lambda>ev. ev = Invoke) tr)"

fun delays :: "event list \<Rightarrow> number list" where
  "delays [] = []"
| "delays (Sleep d # tr) = d # delays tr"
| "delays (ev # tr) = delays tr"

section \<open>The batch\<close>

text \<open>
  The underlying \<open>WriteBatch\<close> is the list of the writes it was given, a document
  reference being its path. Its \<open>commit\<close> is an operation that depends on those writes.
\<close>

datatype batch_write =
    SetWrite string jsval
  | SetWithOptions string jsval jsval
  | UpdateWrite string jsval
  | DeleteWrite string

type_synonym WriteBatch = "batch_write list"

definition discard_result :: "'a settled \<Rightarrow> unit settled" where
  "discard_result outcome = (case outcome of Resolved v \<Rightarrow> Resolved () | Rejected t \<Rightarrow> Rejected t)"

definition retryFirestoreBatchCommit ::
  "WriteBatch \<Rightarrow> RetryConfig \<Rightarrow> (WriteBatch \<Rightarrow> 'a operation) \<Rightarrow> (nat \<Rightarrow> real) \<Rightarrow>
   unit settled \<times> event list"
where
  "retryFirestoreBatchCommit batch config batch_commit random =
     (case retryOperation (batch_commit batch) ''Firestore batch commit'' config random of
        (outcome, tr) \<Rightarrow> (discard_result outcome, tr))"

record RetryableBatch =
  batch :: WriteBatch
  config :: RequiredRetryConfig
  operationCount :: nat

definition RetryableBatch_new :: "RetryConfig \<Rightarrow> RetryableBatch" where
  "RetryableBatch_new cfg =
     \<lparr>batch = [], config = spread_config DEFAULT_RETRY_CONFIG cfg, operationCount = 0\<rparr>"

definition RetryableBatch_set ::
  "RetryableBatch \<Rightarrow> string \<Rightarrow> jsval \<Rightarrow> jsval option \<Rightarrow> RetryableBatch"
where
  "RetryableBatch_set this docRef data options =
     (let written =
            (case options of
               Some opts \<Rightarrow> batch this @ [SetWithOptions docRef data opts]
             | None \<Rightarrow> batch this @ [SetWrite docRef data])
      in this\<lparr>batch := written, operationCount := operationCount this + 1\<rparr>)"

definition RetryableBatch_update :: "RetryableBatch \<Rightarrow> string \<Rightarrow> jsval \<Rightarrow> RetryableBatch" where
  "RetryableBatch_update this docRef data =
     this\<lparr>batch := batch this @ [UpdateWrite docRef data],
          operationCount := operationCount this + 1\<rparr>"

definition RetryableBatch_delete :: "RetryableBatch \<Rightarrow> string \<Rightarrow> RetryableBatch" where
  "RetryableBatch_delete this docRef =
     this\<lparr>batch := batch this @ [DeleteWrite docRef],
          operationCount := operationCount this + 1\<rparr>"

definition RetryableBatch_commit ::
  "RetryableBatch \<Rightarrow> (WriteBatch \<Rightarrow> 'a operation) \<Rightarrow> (nat \<Rightarrow> real) \<Rightarrow> unit settled \<times> event list"
where
  "RetryableBatch_commit this batch_commit random =
     (if operationCount this = 0 then (Resolved (), [Warn EmptyBatchWarning])
      else retryFirestoreBatchCommit (batch this) (as_RetryConfig (config this)) batch_commit random)"

definition getOperationCount :: "RetryableBatch \<Rightarrow> nat" where
  "getOperationCount this = operationCount this"

definition createRetryableBatch :: "RetryConfig \<Rightarrow> RetryableBatch" where
  "createRetryableBatch cfg = RetryableBatch_new cfg"

text \<open>The calls a client makes on a batch before it commits, and their effect in turn.\<close>

datatype batch_call =
    CallSet string jsval "jsval option"
  | CallUpdate string jsval
  | CallDelete string

fun apply_call :: "RetryableBatch \<Rightarrow> batch_call \<Rightarrow> RetryableBatch" where
  "apply_call this (CallSet docRef data options) = RetryableBatch_set this docRef data options"
| "apply_call this (CallUpdate docRef data) = RetryableBatch_update this docRef data"
| "apply_call this (CallDelete docRef) = RetryableBatch_delete this docRef"

section \<open>Inputs of the examples\<close>

definition unavailable_error :: jsval where
  "unavailable_error = JObj [(''code'', JNum 14), (''message'', JStr ''unavailable'')]"

definition permission_denied_error :: jsval where
  "permission_denied_error = JObj [(''code'', JNum 7), (''message'', JStr ''permission denied'')]"

definition rst_stream_error :: jsval where
  "rst_stream_error =
     JObj [(''code'', JNum 13), (''message'', JStr []),
           (''details'', JStr ''Received RST_STREAM with code 2'')]"

definition numeric_message_error :: jsval where
  "numeric_message_error = JObj [(''code'', JNum 14), (''message'', JNum 503)]"

definition numeric_message_only :: jsval where
  "numeric_message_only = JObj [(''message'', JNum 42)]"

definition details_then_number :: jsval where
  "details_then_number = JObj [(''details'', JStr ''Deadline exceeded''), (''msg'', JNum 7)]"

definition always_unavailable :: "unit operation" where
  "always_unavailable i = Inl unavailable_error"

definition always_denied :: "unit operation" where
  "always_denied i = Inl permission_denied_error"

definition fractional_retries_config :: RetryConfig where
  "fractional_retries_config = empty_config\<lparr>maxRetries_opt := Some (5 / 2)\<rparr>"

definition no_retries_config :: RetryConfig where
  "no_retries_config = empty_config\<lparr>maxRetries_opt := Some 0\<rparr>"



section \<open>Properties of the classifier\<close>

lemma includes_str_iff: "includes_str s pat \<longleftrightarrow> sublist pat s"
  by (induction s) (auto simp: sublist_Cons_right)

lemma toLowerCase_Nil_iff: "toLowerCase s = [] \<longleftrightarrow> s = []"
  by (simp add: toLowerCase_def)

lemmas classifier_eval =
  isRetryableFirestoreError_def errorMessage_of_def toLowerCase_def toLowerCase_char_def
  char_of_def bit_Suc_0_iff

lemmas spec_eval =
  spec_isRetryable_def spec_rules_def spec_message_def spec_code_def field_text_def
  toLowerCase_def toLowerCase_char_def char_of_def bit_Suc_0_iff

text \<open>
  The chain of \<open>||\<close> returns exactly when the fields it reads are strings or nullish, and
  then with the lowered first non-empty string.
\<close>

lemma or_chain_reads:
  "or_chain vs =
     (if reads_strings vs
      then Inr (toLowerCase
                 (case filter (\<lambda>s. s \<noteq> []) (map text_of vs) of [] \<Rightarrow> [] | s # _ \<Rightarrow> s))
      else Inl TypeError)"
  by (induction vs rule: reads_strings.induct)
     (simp_all add: toLowerCase_Nil_iff, simp_all add: toLowerCase_def)

lemma field_texts:
  "map (field_text error) [''message'', ''details'', ''msg''] = map text_of (message_fields error)"
  by (simp add: field_text_def message_fields_def)

lemma errorMessage_of_spec:
  "errorMessage_of error =
     (if reads_strings (message_fields error) then Inr (spec_message error) else Inl TypeError)"
  unfolding errorMessage_of_def spec_message_def field_texts
  by (simp add: or_chain_reads message_fields_def)

lemma spec_code_eq: "(spec_code error = Some n) = (opt_get error ''code'' = JNum (of_int n))"
  by (auto simp: spec_code_def split: jsval.splits)

lemma classifier_characterised:
  "isRetryableFirestoreError error =
     (if reads_strings (message_fields error) then Inr (spec_isRetryable error)
      else Inl TypeError)"
  using spec_code_eq[of error 13] spec_code_eq[of error 14] spec_code_eq[of error 8]
  by (simp add: isRetryableFirestoreError_def errorMessage_of_spec spec_isRetryable_def
      spec_rules_def Let_def)

lemma string_fields_read: "list_all string_or_nullish vs \<Longrightarrow> reads_strings vs"
  by (induction vs rule: reads_strings.induct) simp_all

text \<open>
  C1, as stated, fails: on the error \<open>{code: 14, message: 503}\<close> the specification's
  extraction finds no message string and the code 14, so rule 3 says retryable, while the
  classifier raises a \<open>TypeError\<close> on \<open>(503).toLowerCase()\<close> and returns no verdict.
\<close>

theorem classifier_number_message_counterexample:
  "isRetryableFirestoreError numeric_message_error = Inl TypeError \<and>
   spec_isRetryable numeric_message_error = True"
  by (simp add: numeric_message_error_def classifier_eval spec_eval)

text \<open>
  C1, amended: for every error value in which each of the fields \<open>message\<close>, \<open>details\<close>,
  \<open>msg\<close> that the extraction reads (those up to the first one holding a non-empty
  string) is absent, \<open>undefined\<close>, \<open>null\<close> or a string, the classifier returns the
  verdict of the specification's seven rules, applied in their order to the lowered first
  non-empty string among the three fields and to the integer \<open>code\<close>.
\<close>

theorem classifier_follows_rules:
  "reads_strings (message_fields error) \<Longrightarrow>
   isRetryableFirestoreError error = Inr (spec_isRetryable error)"
  by (simp add: classifier_characterised)

theorem classifier_follows_rules_witness:
  "reads_strings (message_fields rst_stream_error) \<and>
   isRetryableFirestoreError rst_stream_error = Inr (spec_isRetryable rst_stream_error) \<and>
   spec_message rst_stream_error = ''received rst_stream with code 2'' \<and>
   spec_code rst_stream_error = Some 13 \<and>
   spec_isRetryable rst_stream_error = True"
proof -
  have h: "reads_strings (message_fields rst_stream_error)"
    by (simp add: message_fields_def rst_stream_error_def)
  show ?thesis
    using h classifier_follows_rules [OF h]
    by (simp add: rst_stream_error_def spec_eval)
qed

text \<open>
  C6: rule 1 never decides alone. The classifier with rule 1 deleted returns, or raises,
  what \<open>isRetryableFirestoreError\<close> does, on every error value.
\<close>

theorem rule1_subsumed:
  "isRetryableFirestoreError_without_rule1 error = isRetryableFirestoreError error"
  by (simp add: isRetryableFirestoreError_without_rule1_def isRetryableFirestoreError_def
      Let_def split: sum.splits)

theorem rule1_subsumed_witness:
  "isRetryableFirestoreError_without_rule1 rst_stream_error = Inr True \<and>
   isRetryableFirestoreError rst_stream_error = Inr True \<and>
   isRetryableFirestoreError_without_rule1 numeric_message_only = Inl TypeError"
  using rule1_subsumed [of rst_stream_error] rule1_subsumed [of numeric_message_only]
  by (simp add: rst_stream_error_def numeric_message_only_def classifier_eval)

text \<open>
  C8, as stated, fails: on \<open>{message: 42}\<close>, a value whose \<open>message\<close> is not a string,
  the classifier raises a \<open>TypeError\<close> instead of returning a boolean.
\<close>

theorem classifier_throws_counterexample:
  "isRetryableFirestoreError numeric_message_only = Inl TypeError"
  by (simp add: numeric_message_only_def classifier_eval)

text \<open>
  C8, amended: the classifier is a function of its argument alone, and it returns a
  boolean exactly on the error values in which every field among \<open>message\<close>,
  \<open>details\<close>, \<open>msg\<close> that the extraction reads is absent, \<open>undefined\<close>, \<open>null\<close> or a
  string; so it does whenever all three are. It returns \<open>false\<close> on \<open>null\<close>, on
  \<open>undefined\<close> and on every value with none of \<open>message\<close>, \<open>details\<close>, \<open>msg\<close>,
  \<open>code\<close>.
\<close>

theorem classifier_returns_on_strings:
  "((\<exists>b. isRetryableFirestoreError error = Inr b) \<longleftrightarrow> reads_strings (message_fields error)) \<and>
   (list_all string_or_nullish (message_fields error) \<longrightarrow>
      (\<exists>b. isRetryableFirestoreError error = Inr b)) \<and>
   isRetryableFirestoreError JNull = Inr False \<and>
   isRetryableFirestoreError JUndefined = Inr False \<and>
   (opt_get error ''message'' = JUndefined \<and> opt_get error ''details'' = JUndefined \<and>
    opt_get error ''msg'' = JUndefined \<and> opt_get error ''code'' = JUndefined \<longrightarrow>
      isRetryableFirestoreError error = Inr False)"
proof -
  have 1: "(\<exists>b. isRetryableFirestoreError error = Inr b) \<longleftrightarrow> reads_strings (message_fields error)"
    by (simp add: classifier_characterised)
  have 2: "list_all string_or_nullish (message_fields error) \<longrightarrow>
             (\<exists>b. isRetryableFirestoreError error = Inr b)"
    using 1 string_fields_read by blast
  have 3: "isRetryableFirestoreError JNull = Inr False"
    and 4: "isRetryableFirestoreError JUndefined = Inr False"
    by (simp_all add: isRetryableFirestoreError_def errorMessage_of_def)
  have 5: "opt_get error ''message'' = JUndefined \<and> opt_get error ''details'' = JUndefined \<and>
           opt_get error ''msg'' = JUndefined \<and> opt_get error ''code'' = JUndefined \<longrightarrow>
             isRetryableFirestoreError error = Inr False"
    by (simp add: isRetryableFirestoreError_def errorMessage_of_def)
  from 1 2 3 4 5 show ?thesis by blast
qed

theorem classifier_returns_on_strings_witness:
  "reads_strings (message_fields details_then_number) \<and>
   isRetryableFirestoreError details_then_number = Inr True \<and>
   list_all string_or_nullish (message_fields permission_denied_error) \<and>
   isRetryableFirestoreError permission_denied_error = Inr False \<and>
   opt_get (JNum 5) ''message'' = JUndefined \<and> opt_get (JNum 5) ''details'' = JUndefined \<and>
   opt_get (JNum 5) ''msg'' = JUndefined \<and> opt_get (JNum 5) ''code'' = JUndefined \<and>
   isRetryableFirestoreError (JNum 5) = Inr False"
  using classifier_returns_on_strings [of details_then_number]
    classifier_returns_on_strings [of permission_denied_error]
    classifier_returns_on_strings [of "JNum 5"]
  by (simp add: details_then_number_def permission_denied_error_def message_fields_def
      classifier_eval)

section \<open>Properties of the presets\<close>

text \<open>
  C7, as stated, fails: the preset \<open>FAST\<close> does not mention \<open>jitterFactor\<close>, so it
  does not specify all four fields.
\<close>

theorem preset_lacks_jitterFactor_counterexample:
  "\<not> specifies_all_fields FAST"
  by (simp add: specifies_all_fields_def FAST_def)

text \<open>
  C7, amended: each of the four presets specifies the three fields \<open>maxRetries\<close>,
  \<open>baseDelay\<close> and \<open>maxDelay\<close> and leaves \<open>jitterFactor\<close> out; spread over the
  defaults, each resolves to a configuration with the default \<open>jitterFactor\<close> of 0.1.
\<close>

theorem presets_specify_three_fields:
  "RetryConfigs = [FAST, STANDARD, AGGRESSIVE, PATIENT] \<and>
   list_all (\<lambda>p. maxRetries_opt p \<noteq> None \<and> baseDelay_opt p \<noteq> None \<and> maxDelay_opt p \<noteq> None \<and>
                 jitterFactor_opt p = None \<and> \<not> specifies_all_fields p \<and>
                 jitterFactor (spread_config DEFAULT_RETRY_CONFIG p) = 1 / 10)
     RetryConfigs \<and>
   spread_config DEFAULT_RETRY_CONFIG FAST =
     \<lparr>maxRetries = 3, baseDelay = 500, maxDelay = 5000, jitterFactor = 1 / 10\<rparr> \<and>
   spread_config DEFAULT_RETRY_CONFIG STANDARD =
     \<lparr>maxRetries = 5, baseDelay = 1000, maxDelay = 30000, jitterFactor = 1 / 10\<rparr> \<and>
   spread_config DEFAULT_RETRY_CONFIG AGGRESSIVE =
     \<lparr>maxRetries = 10, baseDelay = 1000, maxDelay = 60000, jitterFactor = 1 / 10\<rparr> \<and>
   spread_config DEFAULT_RETRY_CONFIG PATIENT =
     \<lparr>maxRetries = 7, baseDelay = 2000, maxDelay = 120000, jitterFactor = 1 / 10\<rparr>"
  by (simp add: RetryConfigs_def FAST_def STANDARD_def AGGRESSIVE_def PATIENT_def
      specifies_all_fields_def spread_config_def DEFAULT_RETRY_CONFIG_def)

section \<open>Properties of the arithmetic\<close>

subsection \<open>Powers of two and binades\<close>

lemma two_powi_less_iff: "(2::real) powi a < 2 powi b \<longleftrightarrow> a < b"
proof
  assume l: "(2::real) powi a < 2 powi b"
  show "a < b"
  proof (rule ccontr)
    assume "\<not> a < b"
    then have "(2::real) powi b \<le> 2 powi a" by (intro power_int_increasing) auto
    with l show False by simp
  qed
next
  assume "a < b"
  then show "(2::real) powi a < 2 powi b" by (intro power_int_strict_increasing) auto
qed

lemma two_powi_le_iff: "(2::real) powi a \<le> 2 powi b \<longleftrightarrow> a \<le> b"
  using two_powi_less_iff [of b a] by (auto simp: not_less [symmetric])

text \<open>\<open>binade\<close> computes the exponent it is meant to, and only that one fits.\<close>

lemma binade_bounds:
  assumes "x \<noteq> 0"
  shows "2 powi (binade x) \<le> \<bar>x\<bar> \<and> \<bar>x\<bar> < 2 powi (binade x + 1)"
proof (cases "1 \<le> \<bar>x\<bar>")
  case True
  define f where "f = \<lfloor>\<bar>x\<bar>\<rfloor>"
  have f: "0 < f" using True by (simp add: f_def)
  have b: "1 \<le> bitlen f" using f by (simp add: bitlen_alt_def)
  from bitlen_bounds [OF f] have 1: "2 ^ nat (bitlen f - 1) \<le> f" and 2: "f < 2 ^ nat (bitlen f)"
    by auto
  have "real_of_int (2 ^ nat (bitlen f - 1)) \<le> of_int f" using 1 by linarith
  also have "\<dots> \<le> \<bar>x\<bar>" by (simp add: f_def)
  finally have lo: "2 powi (bitlen f - 1) \<le> \<bar>x\<bar>"
    using b by (simp add: power_int_def)
  have "f + 1 \<le> 2 ^ nat (bitlen f)" using 2 by simp
  then have "real_of_int (f + 1) \<le> real_of_int (2 ^ nat (bitlen f))" by linarith
  moreover have "\<bar>x\<bar> < of_int (f + 1)" by (simp add: f_def)
  ultimately have hi: "\<bar>x\<bar> < 2 powi (bitlen f)"
    using b by (simp add: power_int_def)
  show ?thesis using lo hi True by (simp add: binade_def f_def)
next
  case False
  define y where "y = 1 / \<bar>x\<bar>"
  have xp: "0 < \<bar>x\<bar>" using assms by simp
  have y1: "1 < y" using False xp by (simp add: y_def)
  define g where "g = \<lfloor>y\<rfloor>"
  have g: "0 < g" using y1 by (simp add: g_def)
  define k where "k = bitlen g - 1"
  have k: "0 \<le> k" using g by (simp add: k_def bitlen_alt_def)
  from bitlen_bounds [OF g] have 1: "2 ^ nat k \<le> g" and 2: "g < 2 ^ nat (k + 1)"
    by (auto simp: k_def)
  have "real_of_int (2 ^ nat k) \<le> of_int g" using 1 by linarith
  also have "\<dots> \<le> y" by (simp add: g_def)
  finally have ylo: "2 ^ nat k \<le> y" by simp
  have "g + 1 \<le> 2 ^ nat (k + 1)" using 2 by simp
  then have "real_of_int (g + 1) \<le> real_of_int (2 ^ nat (k + 1))" by linarith
  moreover have "y < of_int (g + 1)" by (simp add: g_def)
  ultimately have yhi: "y < 2 ^ nat (k + 1)" by simp
  have xhi: "\<bar>x\<bar> \<le> 2 powi (- k)"
  proof -
    have "\<bar>x\<bar> = 1 / y" using xp by (simp add: y_def)
    also have "\<dots> \<le> 1 / 2 ^ nat k" using ylo by (simp add: frac_le)
    also have "\<dots> = 2 powi (- k)" using k by (simp add: power_int_def field_simps)
    finally show ?thesis .
  qed
  have xlo: "2 powi (- k - 1) < \<bar>x\<bar>"
  proof -
    have "1 / 2 ^ nat (k + 1) < 1 / y" using yhi y1 by (simp add: frac_less2)
    moreover have "1 / y = \<bar>x\<bar>" using xp by (simp add: y_def)
    moreover have "1 / 2 ^ nat (k + 1) = (2::real) powi (- k - 1)"
      using k by (simp add: power_int_def field_simps nat_add_distrib)
    ultimately show ?thesis by simp
  qed
  have bd: "binade x = (if \<bar>x\<bar> = 2 powi (- k) then - k else - k - 1)"
    unfolding binade_def Let_def k_def g_def y_def using False by simp
  show ?thesis
  proof (cases "\<bar>x\<bar> = 2 powi (- k)")
    case True
    have "(2::real) powi (- k) < 2 powi (- k + 1)"
      by (rule power_int_strict_increasing) auto
    moreover have e: "binade x = - k" using bd True by simp
    ultimately show ?thesis using True unfolding e by simp
  next
    case ne: False
    then have lt: "\<bar>x\<bar> < 2 powi (- k)" using xhi by simp
    have e: "binade x = - k - 1" using bd ne by simp
    have "(2::real) powi (- k - 1 + 1) = 2 powi (- k)" by simp
    with lt xlo show ?thesis unfolding e by simp
  qed
qed

lemma binade_unique:
  assumes "2 powi e \<le> \<bar>x\<bar>" "\<bar>x\<bar> < 2 powi (e + 1)"
  shows "binade x = e"
proof -
  have "0 < (2::real) powi e" by simp
  with assms(1) have "0 < \<bar>x\<bar>" by linarith
  then have "x \<noteq> 0" by simp
  from binade_bounds [OF this]
  have 1: "2 powi (binade x) \<le> \<bar>x\<bar>" and 2: "\<bar>x\<bar> < 2 powi (binade x + 1)" by auto
  have "(2::real) powi e < 2 powi (binade x + 1)" using assms(1) 2 by linarith
  then have a: "e < binade x + 1" by (simp add: two_powi_less_iff)
  have "(2::real) powi (binade x) < 2 powi (e + 1)" using assms(2) 1 by linarith
  then have b: "binade x < e + 1" by (simp add: two_powi_less_iff)
  from a b show ?thesis by simp
qed

subsection \<open>Rounding is monotone\<close>

text \<open>
  Rounding to an integer fixes the integers, is monotone and commutes with negation; so
  \<open>nearest\<close> is monotone within a binade, and across binades because a rounded value
  never leaves the closed binade of its argument.
\<close>

lemma rhe_of_int [simp]: "round_half_even (of_int n) = n"
  by (simp add: round_half_even_def)

lemma rhe_cases:
  "round_half_even y = \<lfloor>y\<rfloor> \<or> round_half_even y = \<lfloor>y\<rfloor> + 1"
  by (simp add: round_half_even_def Let_def)

lemma rhe_mono: "y \<le> z \<Longrightarrow> round_half_even y \<le> round_half_even z"
proof -
  assume yz: "y \<le> z"
  then have fg: "\<lfloor>y\<rfloor> \<le> \<lfloor>z\<rfloor>" by (rule floor_mono)
  show ?thesis
  proof (cases "\<lfloor>y\<rfloor> = \<lfloor>z\<rfloor>")
    case True
    with yz show ?thesis by (auto simp: round_half_even_def Let_def)
  next
    case False
    with fg have "\<lfloor>y\<rfloor> + 1 \<le> \<lfloor>z\<rfloor>" by simp
    moreover have "round_half_even y \<le> \<lfloor>y\<rfloor> + 1" using rhe_cases [of y] by auto
    moreover have "\<lfloor>z\<rfloor> \<le> round_half_even z" using rhe_cases [of z] by auto
    ultimately show ?thesis by linarith
  qed
qed

lemma rhe_minus: "round_half_even (- y) = - round_half_even y"
proof (cases "y \<in> \<int>")
  case True
  then obtain n where "y = of_int n" by (auto elim: Ints_cases)
  then have "- y = of_int (- n)" by simp
  then show ?thesis using \<open>y = of_int n\<close> by (metis rhe_of_int)
next
  case False
  then have "y \<noteq> of_int \<lfloor>y\<rfloor>" by (metis Ints_of_int)
  then have f: "\<lfloor>- y\<rfloor> = - \<lfloor>y\<rfloor> - 1"
    by (simp add: floor_minus ceiling_altdef)
  have d: "- y - of_int (- \<lfloor>y\<rfloor> - 1) = 1 - (y - of_int \<lfloor>y\<rfloor>)" by simp
  show ?thesis
    unfolding round_half_even_def Let_def f d
    by auto
qed

lemma binade_mono:
  assumes "x \<noteq> 0" "\<bar>x\<bar> \<le> \<bar>y\<bar>"
  shows "binade x \<le> binade y"
proof -
  have "y \<noteq> 0" using assms by auto
  from binade_bounds [OF assms(1)] binade_bounds [OF this] assms(2)
  have "(2::real) powi (binade x) < 2 powi (binade y + 1)" by linarith
  then show ?thesis by (simp add: two_powi_less_iff)
qed

lemma binade_minus [simp]: "binade (- x) = binade x"
  by (simp add: binade_def)

lemma quantum_minus [simp]: "quantum (- x) = quantum x"
  by (simp add: quantum_def)

lemma quantum_pos [simp]: "0 < quantum x"
  by (simp add: quantum_def)

lemma quantum_nonneg [simp]: "0 \<le> quantum x"
  by (simp add: quantum_def)

lemma nearest_minus: "nearest (- x) = - nearest x"
  by (simp add: nearest_def rhe_minus)

lemma two_powi_53: "(2::real) ^ 53 * 2 powi (e - 52) = 2 powi (e + 1)"
proof -
  have "e + 1 = 53 + (e - 52)" by simp
  then have "(2::real) powi (e + 1) = 2 powi (53 + (e - 52))" by (rule arg_cong)
  also have "\<dots> = 2 powi 53 * 2 powi (e - 52)" by (rule power_int_add) simp
  finally show ?thesis by simp
qed

lemma two_powi_52: "(2::real) ^ 52 * 2 powi (e - 52) = 2 powi e"
proof -
  have "e = 52 + (e - 52)" by simp
  then have "(2::real) powi e = 2 powi (52 + (e - 52))" by (rule arg_cong)
  also have "\<dots> = 2 powi 52 * 2 powi (e - 52)" by (rule power_int_add) simp
  finally show ?thesis by simp
qed

lemma nearest_upper:
  assumes "0 < x"
  shows "nearest x \<le> 2 powi (max (binade x) (- 1022) + 1)"
proof -
  define e where "e = max (binade x) (- 1022)"
  have q: "quantum x = 2 powi (e - 52)" by (simp add: quantum_def e_def)
  have "x < 2 powi (binade x + 1)" using binade_bounds [of x] assms by simp
  also have "\<dots> \<le> 2 powi (e + 1)" by (simp add: two_powi_le_iff e_def)
  finally have "x / quantum x \<le> 2 powi (e + 1) / 2 powi (e - 52)"
    unfolding q by (simp add: divide_right_mono)
  also have "\<dots> = 2 powi 53" by (simp add: power_int_diff [symmetric])
  also have "\<dots> = of_int (2 ^ 53)" by simp
  finally have "round_half_even (x / quantum x) \<le> round_half_even (of_int (2 ^ 53))"
    by (rule rhe_mono)
  then have "round_half_even (x / quantum x) \<le> 2 ^ 53" by (simp del: of_int_power of_int_numeral)
  then have "real_of_int (round_half_even (x / quantum x)) \<le> real_of_int (2 ^ 53)"
    by (simp only: of_int_le_iff)
  then have "real_of_int (round_half_even (x / quantum x)) \<le> 2 ^ 53" by simp
  then have "nearest x \<le> 2 ^ 53 * 2 powi (e - 52)"
    using assms by (simp add: nearest_def q)
  also have "\<dots> = 2 powi (e + 1)" by (rule two_powi_53)
  finally show ?thesis by (simp add: e_def)
qed

lemma nearest_lower:
  assumes "0 < x" "- 1022 \<le> binade x"
  shows "2 powi (binade x) \<le> nearest x"
proof -
  define e where "e = binade x"
  have q: "quantum x = 2 powi (e - 52)" using assms(2) by (simp add: quantum_def e_def max_def)
  have "2 powi e \<le> x" using binade_bounds [of x] assms by (simp add: e_def)
  then have "2 powi e / 2 powi (e - 52) \<le> x / quantum x"
    unfolding q by (simp add: divide_right_mono)
  moreover have "(2::real) powi e / 2 powi (e - 52) = 2 powi 52" by (simp add: power_int_diff [symmetric])
  moreover have "(2::real) powi 52 = of_int (2 ^ 52)" by simp
  ultimately have "of_int (2 ^ 52) \<le> x / quantum x" by simp
  then have "round_half_even (of_int (2 ^ 52)) \<le> round_half_even (x / quantum x)"
    by (rule rhe_mono)
  then have "2 ^ 52 \<le> round_half_even (x / quantum x)" by (simp del: of_int_power of_int_numeral)
  then have "real_of_int (2 ^ 52) \<le> real_of_int (round_half_even (x / quantum x))"
    by (simp only: of_int_le_iff)
  then have "2 ^ 52 \<le> real_of_int (round_half_even (x / quantum x))" by simp
  then have "2 ^ 52 * 2 powi (e - 52) \<le> nearest x"
    using assms by (simp add: nearest_def q)
  then show ?thesis unfolding two_powi_52 by (simp add: e_def)
qed

lemma nearest_nonneg:
  assumes "0 \<le> x"
  shows "0 \<le> nearest x"
proof (cases "x = 0")
  case True then show ?thesis by (simp add: nearest_def)
next
  case False
  then have "0 \<le> x / quantum x" using assms by simp
  then have "0 \<le> round_half_even (x / quantum x)"
    using rhe_mono [of 0 "x / quantum x"] rhe_of_int [of 0] by simp
  then show ?thesis using False by (simp add: nearest_def)
qed

lemma nearest_mono_pos:
  assumes "0 < x" "x \<le> y"
  shows "nearest x \<le> nearest y"
proof -
  have y: "0 < y" using assms by simp
  have b: "binade x \<le> binade y" using assms by (intro binade_mono) auto
  show ?thesis
  proof (cases "max (binade x) (- 1022) = max (binade y) (- 1022)")
    case True
    then have q: "quantum x = quantum y" by (simp add: quantum_def)
    have "x / quantum y \<le> y / quantum y" using assms by (simp add: divide_right_mono)
    then have "round_half_even (x / quantum y) \<le> round_half_even (y / quantum y)"
      by (rule rhe_mono)
    then have "real_of_int (round_half_even (x / quantum y)) * quantum y \<le>
               real_of_int (round_half_even (y / quantum y)) * quantum y"
      by (simp add: mult_right_mono)
    then show ?thesis using assms y by (simp add: nearest_def q)
  next
    case False
    with b have lt: "max (binade x) (- 1022) < binade y" and n: "- 1022 \<le> binade y"
      by (auto simp: max_def split: if_splits)
    have "nearest x \<le> 2 powi (max (binade x) (- 1022) + 1)" by (rule nearest_upper [OF assms(1)])
    also have "\<dots> \<le> 2 powi (binade y)"
    proof -
      have "max (binade x) (- 1022) + 1 \<le> binade y" using lt by linarith
      then show ?thesis by (simp only: two_powi_le_iff)
    qed
    also have "\<dots> \<le> nearest y" by (rule nearest_lower [OF y n])
    finally show ?thesis .
  qed
qed

lemma nearest_mono: "x \<le> y \<Longrightarrow> nearest x \<le> nearest y"
proof -
  assume xy: "x \<le> y"
  consider "0 < x" | "x \<le> 0" "0 \<le> y" | "y < 0" using xy by linarith
  then show ?thesis
  proof cases
    case 1 then show ?thesis using xy by (rule nearest_mono_pos)
  next
    case 2
    have "0 \<le> nearest (- x)" using 2 by (intro nearest_nonneg) simp
    then have "nearest x \<le> 0" by (simp add: nearest_minus)
    moreover have "0 \<le> nearest y" using 2 by (intro nearest_nonneg)
    ultimately show ?thesis by simp
  next
    case 3
    have "nearest (- y) \<le> nearest (- x)" using 3 xy by (intro nearest_mono_pos) auto
    then show ?thesis by (simp add: nearest_minus)
  qed
qed

subsection \<open>Doubles are the values of rounding\<close>

text \<open>
  \<open>nearest\<close> fixes every double, and its value is a double unless it overflows; so
  \<open>Number_value\<close> is the identity on doubles and maps an interval between two doubles
  into itself.
\<close>

lemma is_doubleI:
  assumes "d = of_int m * 2 powi e" "\<bar>m\<bar> \<le> 2 ^ 53" "- 1074 \<le> e" "\<bar>d\<bar> < 2 ^ 1024"
  shows "is_double d"
proof (cases "\<bar>m\<bar> < 2 ^ 53")
  case True
  with assms show ?thesis unfolding is_double_def by blast
next
  case False
  with assms(2) have m: "\<bar>m\<bar> = 2 ^ 53" by simp
  define s :: int where "s = (if 0 \<le> m then 1 else - 1)"
  have ms: "m = s * 2 ^ 53" using m by (auto simp: s_def abs_if split: if_splits)
  have "(2::real) powi (e + 1) = 2 powi e * 2 powi 1" by (rule power_int_add) simp
  then have "d = of_int (s * 2 ^ 52) * 2 powi (e + 1)"
    using assms(1) ms by simp
  moreover have "\<bar>s * 2 ^ 52\<bar> < (2::int) ^ 53" by (simp add: s_def)
  moreover have "- 1074 \<le> e + 1" using assms(3) by simp
  ultimately show ?thesis using assms(4) unfolding is_double_def by blast
qed

lemma is_double_of_int: "\<bar>n\<bar> < 2 ^ 53 \<Longrightarrow> is_double (of_int n)"
proof -
  assume n: "\<bar>n\<bar> < 2 ^ 53"
  have "\<bar>real_of_int n\<bar> = real_of_int \<bar>n\<bar>" by simp
  also have "\<dots> < real_of_int (2 ^ 53)" using n by (simp only: of_int_less_iff)
  also have "\<dots> < 2 ^ 1024" by simp
  finally have "\<bar>real_of_int n\<bar> < 2 ^ 1024" .
  moreover have "real_of_int n = of_int n * 2 powi 0" by simp
  ultimately show ?thesis using n unfolding is_double_def by (intro conjI exI [of _ n] exI [of _ 0]) auto
qed

lemma is_double_0 [simp]: "is_double 0"
  using is_double_of_int [of 0] by simp

lemma is_double_1 [simp]: "is_double 1"
  using is_double_of_int [of 1] by simp

lemma is_double_scale:
  assumes "is_double d" "0 \<le> k" "\<bar>d * 2 powi k\<bar> < 2 ^ 1024"
  shows "is_double (d * 2 powi k)"
proof -
  from assms(1) obtain m e where d: "d = of_int m * 2 powi e" and m: "\<bar>m\<bar> < 2 ^ 53" and e: "- 1074 \<le> e"
    unfolding is_double_def by blast
  have "(2::real) powi (e + k) = 2 powi e * 2 powi k" by (rule power_int_add) simp
  then have "d * 2 powi k = of_int m * 2 powi (e + k)" using d by simp
  moreover have "- 1074 \<le> e + k" using e assms(2) by simp
  ultimately show ?thesis using m assms(3) unfolding is_double_def by blast
qed

lemma nearest_double:
  assumes "is_double d"
  shows "nearest d = d"
proof (cases "d = 0")
  case True then show ?thesis by (simp add: nearest_def)
next
  case False
  from assms obtain m e where d: "d = of_int m * 2 powi e" and m: "\<bar>m\<bar> < 2 ^ 53" and e: "- 1074 \<le> e"
    unfolding is_double_def by blast
  define E where "E = max (binade d) (- 1022)"
  have q: "quantum d = 2 powi (E - 52)" by (simp add: quantum_def E_def)
  have "\<bar>real_of_int m\<bar> = real_of_int \<bar>m\<bar>" by simp
  also have "\<dots> < real_of_int (2 ^ 53)" using m by (simp only: of_int_less_iff)
  finally have mr: "\<bar>real_of_int m\<bar> < 2 ^ 53" by simp
  have "2 powi (binade d) \<le> \<bar>d\<bar>" using binade_bounds [OF False] by simp
  also have "\<bar>d\<bar> = \<bar>real_of_int m\<bar> * 2 powi e" by (simp add: d abs_mult)
  also have "\<dots> < 2 ^ 53 * 2 powi e" using mr by (simp add: mult_strict_right_mono)
  also have "\<dots> = 2 powi (e + 53)" using two_powi_53 [of "e + 52"] by (simp add: add.commute)
  finally have "binade d < e + 53" by (simp add: two_powi_less_iff)
  then have le: "E - 52 \<le> e" using e by (simp add: E_def)
  define j where "j = nat (e - (E - 52))"
  have "(2::real) powi e = 2 powi (int j + (E - 52))" using le by (simp add: j_def)
  also have "\<dots> = 2 powi (int j) * 2 powi (E - 52)" by (rule power_int_add) simp
  finally have pe: "(2::real) powi e = 2 ^ j * 2 powi (E - 52)" by simp
  have dq: "d = of_int (m * 2 ^ j) * quantum d" unfolding q using d pe by simp
  have "quantum d \<noteq> 0" by (simp add: quantum_def)
  with dq have "d / quantum d = of_int (m * 2 ^ j)"
    by (metis nonzero_mult_div_cancel_right)
  then have "round_half_even (d / quantum d) = m * 2 ^ j" by (simp only: rhe_of_int)
  then have "nearest d = of_int (m * 2 ^ j) * quantum d" using False by (simp add: nearest_def)
  with dq show ?thesis by simp
qed

lemma rhe_quantum_bound:
  assumes "x \<noteq> 0"
  shows "\<bar>round_half_even (x / quantum x)\<bar> \<le> 2 ^ 53"
proof -
  have pos: "\<bar>round_half_even (x / quantum x)\<bar> \<le> 2 ^ 53" if x: "0 < x" for x
  proof -
    define e where "e = max (binade x) (- 1022)"
    have q: "quantum x = 2 powi (e - 52)" by (simp add: quantum_def e_def)
    have "x < 2 powi (binade x + 1)" using binade_bounds [of x] x by simp
    also have "\<dots> \<le> 2 powi (e + 1)" by (simp add: two_powi_le_iff e_def)
    finally have "x / quantum x \<le> 2 powi (e + 1) / 2 powi (e - 52)"
      unfolding q by (simp add: divide_right_mono)
    also have "\<dots> = 2 powi 53" by (simp add: power_int_diff [symmetric])
    also have "\<dots> = of_int (2 ^ 53)" by simp
    finally have "round_half_even (x / quantum x) \<le> round_half_even (of_int (2 ^ 53))"
      by (rule rhe_mono)
    then have hi: "round_half_even (x / quantum x) \<le> 2 ^ 53" by (simp only: rhe_of_int)
    have "0 \<le> x / quantum x" using x by simp
    then have "0 \<le> round_half_even (x / quantum x)"
      using rhe_mono [of 0 "x / quantum x"] rhe_of_int [of 0] by simp
    with hi show ?thesis by simp
  qed
  show ?thesis
  proof (cases "0 < x")
    case True then show ?thesis by (rule pos)
  next
    case False
    then have "0 < - x" using assms by simp
    from pos [OF this] show ?thesis by (simp add: rhe_minus)
  qed
qed

lemma double_nearest:
  assumes "\<bar>nearest x\<bar> < 2 ^ 1024"
  shows "is_double (nearest x)"
proof (cases "x = 0")
  case True then show ?thesis by (simp add: nearest_def)
next
  case False
  have 1: "nearest x =
      of_int (round_half_even (x / quantum x)) * 2 powi (max (binade x) (- 1022) - 52)"
    using False by (simp add: nearest_def quantum_def)
  have 2: "- 1074 \<le> max (binade x) (- 1022) - 52" by simp
  show ?thesis by (rule is_doubleI [OF 1 rhe_quantum_bound [OF False] 2 assms])
qed

lemma Number_value_double: "is_double d \<Longrightarrow> Number_value d = Finite d"
proof -
  assume d: "is_double d"
  then have "\<bar>d\<bar> < 2 ^ 1024" by (simp add: is_double_def)
  then show ?thesis using nearest_double [OF d] by (auto simp: Number_value_def Let_def)
qed

lemma Number_value_Finite:
  assumes "Number_value x = Finite y"
  shows "is_double y \<and> y = nearest x"
proof -
  from assms have y: "y = nearest x" and "\<bar>nearest x\<bar> < 2 ^ 1024"
    by (auto simp: Number_value_def Let_def split: if_splits)
  then show ?thesis using double_nearest by simp
qed

lemma Number_value_not_NaN [simp]: "Number_value x \<noteq> NaN"
  by (simp add: Number_value_def Let_def)


lemma Number_value_between:
  assumes "is_double lo" "is_double hi" "lo \<le> x" "x \<le> hi"
  shows "\<exists>y. Number_value x = Finite y \<and> lo \<le> y \<and> y \<le> hi \<and> is_double y"
proof -
  have 1: "lo \<le> nearest x" using nearest_mono [OF assms(3)] nearest_double [OF assms(1)] by simp
  have 2: "nearest x \<le> hi" using nearest_mono [OF assms(4)] nearest_double [OF assms(2)] by simp
  have "\<bar>lo\<bar> < 2 ^ 1024" "\<bar>hi\<bar> < 2 ^ 1024" using assms(1,2) by (simp_all add: is_double_def)
  with 1 2 have b: "\<bar>nearest x\<bar> < 2 ^ 1024" by linarith
  then have "Number_value x = Finite (nearest x)" by (auto simp: Number_value_def Let_def)
  with 1 2 double_nearest [OF b] show ?thesis by simp
qed




lemma Number_value_of_int: "\<bar>n\<bar> < 2 ^ 53 \<Longrightarrow> Number_value (of_int n) = Finite (of_int n)"
  by (rule Number_value_double) (rule is_double_of_int)

lemma Number_value_0 [simp]: "Number_value 0 = Finite 0"
  by (simp add: Number_value_double)

lemma Number_value_1 [simp]: "Number_value 1 = Finite 1"
  by (simp add: Number_value_double)


subsection \<open>Comparison, minimum and powers\<close>








lemma nearest_two_powi:
  assumes "- 1074 \<le> k"
  shows "nearest (2 powi k) = 2 powi k"
proof -
  have b: "binade (2 powi k) = k"
    by (rule binade_unique) (simp_all add: two_powi_less_iff)
  define E where "E = max k (- 1022)"
  define j where "j = nat (k - (E - 52))"
  have le: "E - 52 \<le> k" using assms by (simp add: E_def)
  have q: "quantum (2 powi k) = 2 powi (E - 52)" by (simp add: quantum_def b E_def)
  have "(2::real) powi k = 2 powi (int j + (E - 52))" using le by (simp add: j_def)
  also have "\<dots> = 2 powi (int j) * 2 powi (E - 52)" by (rule power_int_add) simp
  finally have "(2::real) powi k = 2 ^ j * 2 powi (E - 52)" by simp
  then have pe: "(2::real) powi k = of_int (2 ^ j) * quantum (2 powi k)" unfolding q by simp
  have "quantum (2 powi k) \<noteq> 0" by (simp add: quantum_def)
  with pe have "2 powi k / quantum (2 powi k) = of_int (2 ^ j)"
    by (metis nonzero_mult_div_cancel_right)
  then have "round_half_even (2 powi k / quantum (2 powi k)) = 2 ^ j" by (simp only: rhe_of_int)
  then have "nearest (2 powi k) = of_int (2 ^ j) * quantum (2 powi k)" by (simp add: nearest_def)
  with pe show ?thesis by simp
qed

lemma Math_pow2_eq:
  assumes "- 1074 \<le> k"
  shows "Math_pow2 k = (if 1024 \<le> k then PosInfinity else Finite (2 powi k))"
proof -
  have "(2::real) ^ 1024 = 2 powi 1024" by simp
  then have "((2::real) ^ 1024 \<le> 2 powi k) = (1024 \<le> k)" by (simp only: two_powi_le_iff)
  moreover have "\<not> (2::real) powi k \<le> - (2 ^ 1024)"
  proof -
    have "0 < (2::real) powi k" by simp
    moreover have "- ((2::real) ^ 1024) < 0" by simp
    ultimately show ?thesis by linarith
  qed
  ultimately show ?thesis
    by (simp add: Math_pow2_def Number_value_def Let_def nearest_two_powi [OF assms] del: power_int_numeral)
qed

lemma Math_pow2_0 [simp]: "Math_pow2 0 = Finite 1"
  by (simp add: Math_pow2_eq)

lemma Number_value_numeral:
  "numeral k < (2::int) ^ 53 \<Longrightarrow> Number_value (numeral k) = Finite (numeral k)"
  using Number_value_of_int [of "numeral k"] by simp

subsection \<open>The steps of \<open>calculateDelay\<close>\<close>

lemma Number_value_unit:
  assumes "0 \<le> x" "x \<le> 1"
  shows "\<exists>j. Number_value x = Finite j \<and> 0 \<le> j \<and> j \<le> 1"
  using Number_value_between [OF is_double_0 is_double_1 assms] by blast

text \<open>
  The two products of the jitter stay between 0 and the exponential delay when the
  jitter factor and the draw are between 0 and 1.
\<close>

lemma jitter_bounds:
  assumes "is_double e" "0 \<le> e" "0 \<le> j" "j \<le> 1" "0 \<le> r" "r \<le> 1"
  shows "\<exists>u v. Number_value (e * j) = Finite u \<and> Number_value (u * r) = Finite v \<and>
               0 \<le> v \<and> v \<le> u \<and> u \<le> e"
proof -
  have "0 \<le> e * j" "e * j \<le> e" using assms by (simp_all add: mult_left_le)
  from Number_value_between [OF is_double_0 assms(1) this]
  obtain u where u: "Number_value (e * j) = Finite u" "0 \<le> u" "u \<le> e" "is_double u" by blast
  have "0 \<le> u * r" "u * r \<le> u" using u(2) assms by (simp_all add: mult_left_le)
  from Number_value_between [OF is_double_0 u(4) this]
  obtain v where v: "Number_value (u * r) = Finite v" "0 \<le> v" "v \<le> u" by blast
  show ?thesis using u v by simp
qed

text \<open>
  Doubling a double is exact as long as it does not overflow, so the exponential delay of
  attempt \<open>k\<close> is \<open>baseDelay * 2^(k-1)\<close> itself.
\<close>

lemma exponentialDelay_exact:
  assumes "Number_value (baseDelay cfg) = Finite b" "0 \<le> b"
    and "1 \<le> k" "k \<le> 1024" "b * 2 ^ nat (k - 1) < 2 ^ 1024"
  shows "exponentialDelay k cfg = Finite (b * 2 ^ nat (k - 1)) \<and> is_double (b * 2 ^ nat (k - 1))"
proof -
  have db: "is_double b" using Number_value_Finite [OF assms(1)] by blast
  have p: "(2::real) powi (k - 1) = 2 ^ nat (k - 1)" using assms(3) by (simp add: power_int_def)
  have "\<bar>b * 2 powi (k - 1)\<bar> < 2 ^ 1024" using assms(2,5) by (simp add: p abs_mult)
  with db have "is_double (b * 2 powi (k - 1))" using assms(3) by (intro is_double_scale) auto
  then have d: "is_double (b * 2 ^ nat (k - 1))" by (simp add: p)
  have "Math_pow2 (k - 1) = Finite (2 powi (k - 1))" using assms(3,4) by (simp add: Math_pow2_eq)
  then show ?thesis using d assms(1) by (simp add: exponentialDelay_def p Number_value_double)
qed

text \<open>With the draw 0 the jitter is 0 and the delay is the capped exponential delay.\<close>

lemma calculateDelay_draw_0:
  assumes "Number_value (baseDelay cfg) = Finite b" "0 \<le> b"
    and "0 \<le> jitterFactor cfg" "jitterFactor cfg \<le> 1"
    and "1 \<le> k" "k \<le> 1024" "b * 2 ^ nat (k - 1) < 2 ^ 1024"
  shows "calculateDelay k cfg 0 =
           Math_min (Finite (b * 2 ^ nat (k - 1))) (Number_value (maxDelay cfg))"
proof -
  define e where "e = b * 2 ^ nat (k - 1)"
  from exponentialDelay_exact [OF assms(1,2,5,6,7)]
  have e: "exponentialDelay k cfg = Finite e" "is_double e" by (simp_all add: e_def)
  have e0: "0 \<le> e" using assms(2) by (simp add: e_def)
  from Number_value_unit [OF assms(3,4)]
  obtain j where j: "Number_value (jitterFactor cfg) = Finite j" "0 \<le> j" "j \<le> 1" by blast
  from jitter_bounds [OF e(2) e0 j(2,3), of 0]
  obtain u v where "Number_value (e * j) = Finite u" by auto
  then have "totalDelay k cfg 0 = Finite e"
    using e by (simp add: totalDelay_def jitter_def j Number_value_double)
  then show ?thesis by (simp add: calculateDelay_def e_def)
qed

section \<open>Properties of the delay\<close>







section \<open>Properties of the attempt loop\<close>

text \<open>One equation for each way an iteration of the loop can go.\<close>

lemma retry_loop_exhausted:
  "maxRetries cfg < of_int attempt \<Longrightarrow>
   retry_loop cfg name operation random attempt =
     (Rejected (NewError (''Max retries exceeded for '' @ name)), [])"
  by (subst retry_loop.simps) simp

lemma retry_loop_resolved:
  "of_int attempt \<le> maxRetries cfg \<Longrightarrow> operation 0 = Inr v \<Longrightarrow>
   retry_loop cfg name operation random attempt = (Resolved v, [Invoke])"
  by (subst retry_loop.simps) simp

lemma retry_loop_last:
  "of_int attempt = maxRetries cfg \<Longrightarrow> operation 0 = Inl e \<Longrightarrow>
   retry_loop cfg name operation random attempt = (Rejected (OperationError e), [Invoke])"
  by (subst retry_loop.simps) simp

lemma retry_loop_permanent:
  "of_int attempt \<le> maxRetries cfg \<Longrightarrow> operation 0 = Inl e \<Longrightarrow>
   isRetryableFirestoreError e = Inr False \<Longrightarrow>
   retry_loop cfg name operation random attempt = (Rejected (OperationError e), [Invoke])"
  by (subst retry_loop.simps) simp

lemma retry_loop_classifier_raises:
  "of_int attempt < maxRetries cfg \<Longrightarrow> operation 0 = Inl e \<Longrightarrow>
   isRetryableFirestoreError e = Inl t \<Longrightarrow>
   retry_loop cfg name operation random attempt = (Rejected (ClassifierError t), [Invoke])"
  by (subst retry_loop.simps) simp

lemma retry_loop_retry:
  "of_int attempt < maxRetries cfg \<Longrightarrow> operation 0 = Inl e \<Longrightarrow>
   isRetryableFirestoreError e = Inr True \<Longrightarrow>
   retry_loop cfg name operation random attempt =
     (fst (retry_loop cfg name (\<lambda>i. operation (Suc i)) (\<lambda>i. random (Suc i)) (attempt + 1)),
      Invoke #
      Warn (RetryWarning name (Math_round (calculateDelay attempt cfg (random 0))) attempt
              (maxRetries cfg) (opt_get e ''message'')) #
      Sleep (calculateDelay attempt cfg (random 0)) #
      snd (retry_loop cfg name (\<lambda>i. operation (Suc i)) (\<lambda>i. random (Suc i)) (attempt + 1)))"
  by (subst retry_loop.simps) (simp add: Let_def split: prod.splits)

lemma invocations_simps [simp]:
  "invocations [] = 0"
  "invocations (Invoke # tr) = Suc (invocations tr)"
  "invocations (Warn w # tr) = invocations tr"
  "invocations (Sleep d # tr) = invocations tr"
  by (simp_all add: invocations_def)

text \<open>
  With \<open>j\<close> attempts left after the current one, and a retryable error from each of
  the next \<open>j + 1\<close> invocations, the loop invokes the operation \<open>j + 1\<close> times, sleeps
  \<open>j\<close> times and rejects with the last error thrown.
\<close>

lemma retry_loop_all_retryable:
  assumes "maxRetries cfg = of_int attempt + real j"
    and "\<forall>i\<le>j. \<exists>e. operation i = Inl e \<and> isRetryableFirestoreError e = Inr True"
  shows "\<exists>e tr. operation j = Inl e \<and>
           retry_loop cfg name operation random attempt = (Rejected (OperationError e), tr) \<and>
           invocations tr = Suc j \<and> length (delays tr) = j"
  using assms
proof (induction j arbitrary: attempt operation random)
  case 0
  then obtain e where "operation 0 = Inl e" by auto
  with 0 show ?case by (simp add: retry_loop_last)
next
  case (Suc j)
  from Suc.prems(2) obtain e
    where e: "operation 0 = Inl e" "isRetryableFirestoreError e = Inr True"
    by auto
  have lt: "of_int attempt < maxRetries cfg" using Suc.prems(1) by simp
  have m: "maxRetries cfg = of_int (attempt + 1) + real j" using Suc.prems(1) by simp
  have r: "\<forall>i\<le>j. \<exists>e. operation (Suc i) = Inl e \<and> isRetryableFirestoreError e = Inr True"
    using Suc.prems(2) by auto
  from Suc.IH [OF m, of "\<lambda>i. operation (Suc i)" "\<lambda>i. random (Suc i)"] r
  obtain e' tr where
    "operation (Suc j) = Inl e'"
    "retry_loop cfg name (\<lambda>i. operation (Suc i)) (\<lambda>i. random (Suc i)) (attempt + 1) =
       (Rejected (OperationError e'), tr)"
    "invocations tr = Suc j" "length (delays tr) = j"
    by auto
  then show ?case
    using retry_loop_retry [of attempt cfg operation e name random] lt e
    by simp
qed

text \<open>
  C3: when the resolved \<open>maxRetries\<close> is \<open>k \<ge> 1\<close> and each of the first \<open>k\<close>
  invocations of the operation throws an error the classifier calls retryable,
  \<open>retryOperation\<close> invokes the operation exactly \<open>k\<close> times (with \<open>k - 1\<close> sleeps
  between them) and rejects with the very error the \<open>k\<close>-th invocation threw.
\<close>

theorem persistent_transient_error:
  assumes "maxRetries (spread_config DEFAULT_RETRY_CONFIG cfg) = real k" "1 \<le> k"
    and "\<forall>i<k. \<exists>e. operation i = Inl e \<and> isRetryableFirestoreError e = Inr True"
  shows "\<exists>e tr. operation (k - 1) = Inl e \<and>
           retryOperation operation name cfg random = (Rejected (OperationError e), tr) \<and>
           invocations tr = k \<and> length (delays tr) = k - 1"
proof -
  obtain j where k: "k = Suc j" using assms(2) by (cases k) auto
  have m: "maxRetries (spread_config DEFAULT_RETRY_CONFIG cfg) = of_int 1 + real j"
    using assms(1) k by simp
  have r: "\<forall>i\<le>j. \<exists>e. operation i = Inl e \<and> isRetryableFirestoreError e = Inr True"
    using assms(3) k by (simp add: less_Suc_eq_le)
  show ?thesis
    using retry_loop_all_retryable [OF m r, of name random] k
    by (simp add: retryOperation_def)
qed

theorem persistent_transient_error_witness:
  "maxRetries (spread_config DEFAULT_RETRY_CONFIG FAST) = real 3 \<and> (1::nat) \<le> 3 \<and>
   always_unavailable 0 = Inl unavailable_error \<and>
   always_unavailable 1 = Inl unavailable_error \<and>
   always_unavailable 2 = Inl unavailable_error \<and>
   isRetryableFirestoreError unavailable_error = Inr True \<and>
   retryOperation always_unavailable ''op'' FAST (\<lambda>i. 0) =
     (Rejected (OperationError unavailable_error),
      [Invoke, Warn (RetryWarning ''op'' (Finite 500) 1 3 (JStr ''unavailable'')),
       Sleep (Finite 500),
       Invoke, Warn (RetryWarning ''op'' (Finite 1000) 2 3 (JStr ''unavailable'')),
       Sleep (Finite 1000),
       Invoke]) \<and>
   invocations (snd (retryOperation always_unavailable ''op'' FAST (\<lambda>i. 0))) = 3"
proof -
  define cfg where "cfg = spread_config DEFAULT_RETRY_CONFIG FAST"
  have f: "maxRetries cfg = 3" "baseDelay cfg = 500" "maxDelay cfg = 5000"
    "jitterFactor cfg = 1 / 10"
    by (simp_all add: cfg_def spread_config_def FAST_def DEFAULT_RETRY_CONFIG_def)
  have B: "Number_value (baseDelay cfg) = Finite 500"
    by (simp add: f Number_value_numeral)
  have d1: "calculateDelay 1 cfg 0 = Finite 500"
    using calculateDelay_draw_0 [OF B, of 1]
    by (simp add: f Number_value_numeral Math_min_def)
  have d2: "calculateDelay 2 cfg 0 = Finite 1000"
    using calculateDelay_draw_0 [OF B, of 2]
    by (simp add: f Number_value_numeral Math_min_def)
  have m: "maxRetries (spread_config DEFAULT_RETRY_CONFIG FAST) = real 3"
    by (simp add: spread_config_def FAST_def)
  have c: "isRetryableFirestoreError unavailable_error = Inr True"
    by (simp add: unavailable_error_def classifier_eval)
  have r: "\<forall>i<3. \<exists>e. always_unavailable i = Inl e \<and> isRetryableFirestoreError e = Inr True"
    by (simp add: always_unavailable_def c)
  have "retry_loop cfg ''op'' always_unavailable (\<lambda>i. 0) 1 =
     (Rejected (OperationError unavailable_error),
      [Invoke, Warn (RetryWarning ''op'' (Finite 500) 1 3 (JStr ''unavailable'')),
       Sleep (Finite 500),
       Invoke, Warn (RetryWarning ''op'' (Finite 1000) 2 3 (JStr ''unavailable'')),
       Sleep (Finite 1000),
       Invoke])"
    apply (subst retry_loop.simps)
    apply (subst retry_loop.simps)
    apply (subst retry_loop.simps)
    apply (simp add: f always_unavailable_def c d1 d2 Let_def)
    apply (simp add: unavailable_error_def)
    done
  then have l: "retry_loop (spread_config DEFAULT_RETRY_CONFIG FAST) ''op'' always_unavailable
             (\<lambda>i. 0) 1 =
     (Rejected (OperationError unavailable_error),
      [Invoke, Warn (RetryWarning ''op'' (Finite 500) 1 3 (JStr ''unavailable'')),
       Sleep (Finite 500),
       Invoke, Warn (RetryWarning ''op'' (Finite 1000) 2 3 (JStr ''unavailable'')),
       Sleep (Finite 1000),
       Invoke])"
    by (simp only: cfg_def)
  show ?thesis
    using persistent_transient_error [OF m _ r, of "''op''" "\<lambda>i. 0"] m l c
    by (simp add: retryOperation_def always_unavailable_def)
qed

text \<open>
  A resolved \<open>maxRetries\<close> that is not a whole number is never equal to the attempt
  counter: with 2.5 the loop retries after the second failure as well and then falls
  through to the error it builds itself.
\<close>

lemma fractional_maxRetries_falls_through:
  "retryOperation always_unavailable ''op'' fractional_retries_config (\<lambda>i. 0) =
     (Rejected (NewError ''Max retries exceeded for op''),
      [Invoke, Warn (RetryWarning ''op'' (Finite 1000) 1 (5 / 2) (JStr ''unavailable'')),
       Sleep (Finite 1000),
       Invoke, Warn (RetryWarning ''op'' (Finite 2000) 2 (5 / 2) (JStr ''unavailable'')),
       Sleep (Finite 2000)])"
proof -
  define cfg where "cfg = spread_config DEFAULT_RETRY_CONFIG fractional_retries_config"
  have f: "maxRetries cfg = 5 / 2" "baseDelay cfg = 1000" "maxDelay cfg = 30000"
    "jitterFactor cfg = 1 / 10"
    by (simp_all add: cfg_def spread_config_def fractional_retries_config_def empty_config_def
        DEFAULT_RETRY_CONFIG_def)
  have B: "Number_value (baseDelay cfg) = Finite 1000"
    by (simp add: f Number_value_numeral)
  have d1: "calculateDelay 1 cfg 0 = Finite 1000"
    using calculateDelay_draw_0 [OF B, of 1]
    by (simp add: f Number_value_numeral Math_min_def)
  have d2: "calculateDelay 2 cfg 0 = Finite 2000"
    using calculateDelay_draw_0 [OF B, of 2]
    by (simp add: f Number_value_numeral Math_min_def)
  have c: "isRetryableFirestoreError unavailable_error = Inr True"
    by (simp add: unavailable_error_def classifier_eval)
  have "retry_loop cfg ''op'' always_unavailable (\<lambda>i. 0) 1 =
     (Rejected (NewError ''Max retries exceeded for op''),
      [Invoke, Warn (RetryWarning ''op'' (Finite 1000) 1 (5 / 2) (JStr ''unavailable'')),
       Sleep (Finite 1000),
       Invoke, Warn (RetryWarning ''op'' (Finite 2000) 2 (5 / 2) (JStr ''unavailable'')),
       Sleep (Finite 2000)])"
    apply (subst retry_loop.simps)
    apply (subst retry_loop.simps)
    apply (subst retry_loop.simps)
    apply (simp add: f always_unavailable_def c d1 d2 Let_def)
    apply (simp add: unavailable_error_def)
    done
  then show ?thesis
    by (simp only: retryOperation_def Let_def cfg_def)
qed

text \<open>
  C4: when the resolved \<open>maxRetries\<close> is at least 1 and the first invocation of the
  operation throws an error the classifier calls not retryable, \<open>retryOperation\<close>
  invokes the operation once, sleeps never and rejects with that error.
\<close>

theorem permanent_error_once:
  assumes "1 \<le> maxRetries (spread_config DEFAULT_RETRY_CONFIG cfg)"
    and "operation 0 = Inl e" "isRetryableFirestoreError e = Inr False"
  shows "retryOperation operation name cfg random = (Rejected (OperationError e), [Invoke]) \<and>
         invocations (snd (retryOperation operation name cfg random)) = 1 \<and>
         delays (snd (retryOperation operation name cfg random)) = []"
  using assms by (simp add: retryOperation_def retry_loop_permanent)

theorem permanent_error_once_witness:
  "1 \<le> maxRetries (spread_config DEFAULT_RETRY_CONFIG empty_config) \<and>
   always_denied 0 = Inl permission_denied_error \<and>
   isRetryableFirestoreError permission_denied_error = Inr False \<and>
   retryOperation always_denied ''op'' empty_config (\<lambda>i. 0) =
     (Rejected (OperationError permission_denied_error), [Invoke])"
proof -
  have m: "1 \<le> maxRetries (spread_config DEFAULT_RETRY_CONFIG empty_config)"
    by (simp add: spread_config_def empty_config_def DEFAULT_RETRY_CONFIG_def)
  have o: "always_denied 0 = Inl permission_denied_error"
    by (simp add: always_denied_def)
  have c: "isRetryableFirestoreError permission_denied_error = Inr False"
    by (simp add: permission_denied_error_def classifier_eval)
  show ?thesis
    using permanent_error_once [of empty_config always_denied permission_denied_error
        "''op''" "\<lambda>i. 0"] m o c
    by simp
qed

text \<open>
  C10: when the resolved \<open>maxRetries\<close> is below 1, as with \<open>maxRetries: 0\<close>,
  \<open>retryOperation\<close> never invokes the operation and rejects with the error it builds
  itself, whose message is \<open>Max retries exceeded for\<close> followed by the operation's name.
\<close>

theorem no_attempt_synthesized_error:
  assumes "maxRetries (spread_config DEFAULT_RETRY_CONFIG cfg) < 1"
  shows "retryOperation operation name cfg random =
           (Rejected (NewError (''Max retries exceeded for '' @ name)), []) \<and>
         invocations (snd (retryOperation operation name cfg random)) = 0"
  using assms by (simp add: retryOperation_def retry_loop_exhausted)

theorem no_attempt_synthesized_error_witness:
  "maxRetries (spread_config DEFAULT_RETRY_CONFIG no_retries_config) < 1 \<and>
   retryOperation always_unavailable ''operation'' no_retries_config (\<lambda>i. 0) =
     (Rejected (NewError ''Max retries exceeded for operation''), [])"
proof -
  have m: "maxRetries (spread_config DEFAULT_RETRY_CONFIG no_retries_config) < 1"
    by (simp add: spread_config_def no_retries_config_def empty_config_def)
  show ?thesis
    using no_attempt_synthesized_error [OF m, of always_unavailable "''operation''" "\<lambda>i. 0"] m
    by simp
qed

section \<open>Properties of the batch\<close>

lemma spread_as_RetryConfig: "spread_config d (as_RetryConfig c) = c"
  by (simp add: spread_config_def as_RetryConfig_def)

lemma apply_call_counts:
  "operationCount (apply_call this c) = Suc (operationCount this) \<and>
   length (batch (apply_call this c)) = Suc (length (batch this)) \<and>
   config (apply_call this c) = config this"
  by (cases c)
     (simp_all add: RetryableBatch_set_def RetryableBatch_update_def RetryableBatch_delete_def
        Let_def split: option.splits)

text \<open>
  The counter is the number of \<open>set\<close>, \<open>update\<close> and \<open>delete\<close> calls made, whatever
  their mix, and the number of writes the underlying batch holds.
\<close>

lemma foldl_apply_call:
  "operationCount (foldl apply_call this calls) = operationCount this + length calls \<and>
   length (batch (foldl apply_call this calls)) = length (batch this) + length calls \<and>
   config (foldl apply_call this calls) = config this"
  by (induction calls arbitrary: this) (simp_all add: apply_call_counts)

text \<open>
  C9: a batch on which no \<open>set\<close>, \<open>update\<close> or \<open>delete\<close> was called commits without
  invoking the underlying \<open>commit\<close>: it warns and resolves. A batch with one call or
  more hands the underlying \<open>commit\<close> to \<open>retryFirestoreBatchCommit\<close> with its own
  configuration, which is the attempt loop run from attempt 1 under that configuration
  and the name \<open>Firestore batch commit\<close>, its result discarded.
\<close>

theorem commit_empty_or_delegates:
  assumes "this = foldl apply_call (createRetryableBatch cfg) calls"
  shows "(calls = [] \<longrightarrow>
            RetryableBatch_commit this batch_commit random =
              (Resolved (), [Warn EmptyBatchWarning]) \<and>
            invocations (snd (RetryableBatch_commit this batch_commit random)) = 0) \<and>
         (calls \<noteq> [] \<longrightarrow>
            RetryableBatch_commit this batch_commit random =
              retryFirestoreBatchCommit (batch this) (as_RetryConfig (config this))
                batch_commit random \<and>
            RetryableBatch_commit this batch_commit random =
              (case retry_loop (config this) ''Firestore batch commit''
                      (batch_commit (batch this)) random 1 of
                 (outcome, tr) \<Rightarrow> (discard_result outcome, tr)) \<and>
            config this = spread_config DEFAULT_RETRY_CONFIG cfg)"
proof -
  have n: "operationCount this = length calls"
    and c: "config this = spread_config DEFAULT_RETRY_CONFIG cfg"
    using foldl_apply_call [of "createRetryableBatch cfg" calls] assms
    by (simp_all add: createRetryableBatch_def RetryableBatch_new_def)
  show ?thesis
    using n c
    by (simp add: RetryableBatch_commit_def retryFirestoreBatchCommit_def retryOperation_def
        spread_as_RetryConfig)
qed

theorem commit_empty_or_delegates_witness:
  "RetryableBatch_commit (foldl apply_call (createRetryableBatch PATIENT) [])
     (\<lambda>b. always_denied) (\<lambda>i. 0) = (Resolved (), [Warn EmptyBatchWarning]) \<and>
   [CallDelete ''users/user1''] \<noteq> [] \<and>
   RetryableBatch_commit (foldl apply_call (createRetryableBatch PATIENT) [CallDelete ''users/user1''])
     (\<lambda>b. always_denied) (\<lambda>i. 0) =
     (Rejected (OperationError permission_denied_error), [Invoke])"
proof -
  have c: "isRetryableFirestoreError permission_denied_error = Inr False"
    by (simp add: permission_denied_error_def classifier_eval)
  have l: "retry_loop (spread_config DEFAULT_RETRY_CONFIG PATIENT) ''Firestore batch commit''
             always_denied (\<lambda>i. 0) 1 = (Rejected (OperationError permission_denied_error), [Invoke])"
    by (rule retry_loop_permanent)
       (simp_all add: spread_config_def PATIENT_def always_denied_def c)
  have ne: "[CallDelete ''users/user1''] \<noteq> []"
    by simp
  have e: "RetryableBatch_commit (foldl apply_call (createRetryableBatch PATIENT) [])
             (\<lambda>b. always_denied) (\<lambda>i. 0) = (Resolved (), [Warn EmptyBatchWarning])"
    using commit_empty_or_delegates [OF refl, where cfg = PATIENT and calls = "[]"
        and batch_commit = "\<lambda>b. always_denied" and random = "\<lambda>i. 0"]
    by blast
  note t = commit_empty_or_delegates [OF refl, where cfg = PATIENT
      and calls = "[CallDelete ''users/user1'']"
      and batch_commit = "\<lambda>b. always_denied" and random = "\<lambda>i. 0"]
  from t ne have cf:
    "config (foldl apply_call (createRetryableBatch PATIENT) [CallDelete ''users/user1'']) =
       spread_config DEFAULT_RETRY_CONFIG PATIENT"
    by blast
  from t ne have
    "RetryableBatch_commit
       (foldl apply_call (createRetryableBatch PATIENT) [CallDelete ''users/user1''])
       (\<lambda>b. always_denied) (\<lambda>i. 0) =
     (case retry_loop
             (config (foldl apply_call (createRetryableBatch PATIENT) [CallDelete ''users/user1'']))
             ''Firestore batch commit'' always_denied (\<lambda>i. 0) 1 of
        (outcome, tr) \<Rightarrow> (discard_result outcome, tr))"
    by blast
  then have d:
    "RetryableBatch_commit
       (foldl apply_call (createRetryableBatch PATIENT) [CallDelete ''users/user1''])
       (\<lambda>b. always_denied) (\<lambda>i. 0) =
     (Rejected (OperationError permission_denied_error), [Invoke])"
    unfolding cf l by (simp add: discard_result_def)
  from e ne d show ?thesis
    by blast
qed

end
